theory Spec2Isabelle
  imports Complex_Main "HOL-Library.Sublist" "HOL-Library.AList"
begin

section \<open>Strings\<close>

text \<open>
  The program is \<^verbatim>\<open>src/app.py\<close>. A Python string is a list of Unicode code
  points, modelled as natural numbers. The literals of the source are ASCII; \<open>u\<close>
  turns such a literal into its code points.
\<close>

type_synonym ustring = "nat list"

definition u :: "string \<Rightarrow> ustring" where
  "u s = map of_char s"

text \<open>
  \<^verbatim>\<open>str.lower\<close>, \<^verbatim>\<open>str.upper\<close>, the white space of \<^verbatim>\<open>str.strip\<close> and the
  class \<^verbatim>\<open>\w\<close> of \<^verbatim>\<open>re\<close> are read from the Unicode tables of the Python
  runtime, which are not part of the repository. They are a parameter of the model:
  any four tables that behave on ASCII as Python's do. On ASCII, \<^verbatim>\<open>lower\<close> and
  \<^verbatim>\<open>upper\<close> map the 26 letters and nothing else, white space is tab, line feed,
  vertical tab, form feed, carriage return, the separators 28 to 31 and the space, and
  a word character is a letter, a digit or the underscore.
\<close>

definition ascii :: "ustring \<Rightarrow> bool" where
  "ascii s = list_all (\<lambda>c. c < 128) s"

definition ascii_lower :: "nat \<Rightarrow> nat" where
  "ascii_lower c = (if 65 \<le> c \<and> c \<le> 90 then c + 32 else c)"

definition ascii_upper :: "nat \<Rightarrow> nat" where
  "ascii_upper c = (if 97 \<le> c \<and> c \<le> 122 then c - 32 else c)"

definition ascii_space :: "nat \<Rightarrow> bool" where
  "ascii_space c = ((9 \<le> c \<and> c \<le> 13) \<or> (28 \<le> c \<and> c \<le> 32))"

definition ascii_word :: "nat \<Rightarrow> bool" where
  "ascii_word c =
     ((48 \<le> c \<and> c \<le> 57) \<or> (65 \<le> c \<and> c \<le> 90) \<or> (97 \<le> c \<and> c \<le> 122) \<or> c = 95)"

record tables =
  lower_table :: "ustring \<Rightarrow> ustring"
  upper_table :: "ustring \<Rightarrow> ustring"
  space_table :: "nat \<Rightarrow> bool"
  word_table :: "nat \<Rightarrow> bool"

definition python_on_ascii :: "tables \<Rightarrow> bool" where
  "python_on_ascii T =
     ((\<forall>s. ascii s \<longrightarrow> lower_table T s = map ascii_lower s) \<and>
      (\<forall>s. ascii s \<longrightarrow> upper_table T s = map ascii_upper s) \<and>
      (\<forall>c. c < 128 \<longrightarrow> space_table T c = ascii_space c) \<and>
      (\<forall>c. c < 128 \<longrightarrow> word_table T c = ascii_word c))"

text \<open>
  Such tables exist: \<open>ascii_tables\<close> leaves every character above 127 alone. It
  serves only to show that the type of the tables is not empty; no statement below is
  about it.
\<close>

definition ascii_tables :: tables where
  "ascii_tables =
     \<lparr>lower_table = map ascii_lower, upper_table = map ascii_upper,
      space_table = ascii_space, word_table = ascii_word\<rparr>"

typedef unicode = "{T. python_on_ascii T}"
  by (rule exI [of _ ascii_tables]) (simp add: python_on_ascii_def ascii_tables_def)

text \<open>\<^verbatim>\<open>s.lower()\<close> and \<^verbatim>\<open>s.upper()\<close>.\<close>

definition lower :: "unicode \<Rightarrow> ustring \<Rightarrow> ustring" where
  "lower U s = lower_table (Rep_unicode U) s"

definition upper :: "unicode \<Rightarrow> ustring \<Rightarrow> ustring" where
  "upper U s = upper_table (Rep_unicode U) s"

definition is_space :: "unicode \<Rightarrow> nat \<Rightarrow> bool" where
  "is_space U c = space_table (Rep_unicode U) c"

text \<open>\<^verbatim>\<open>s.strip()\<close>: the white space at both ends is dropped.\<close>

definition strip :: "unicode \<Rightarrow> ustring \<Rightarrow> ustring" where
  "strip U s = rev (dropWhile (is_space U) (rev (dropWhile (is_space U) s)))"

text \<open>The class \<^verbatim>\<open>\w\<close>.\<close>

definition is_word_char :: "unicode \<Rightarrow> nat \<Rightarrow> bool" where
  "is_word_char U c = word_table (Rep_unicode U) c"

section \<open>The regular expression of the field scorer\<close>

text \<open>
  \<^verbatim>\<open>re.search(r"\b" + re.escape(fv) + r"\b", desc)\<close> looks for a position of
  \<^verbatim>\<open>desc\<close> where the literal \<^verbatim>\<open>fv\<close> stands with a word boundary on each side.
  \<^verbatim>\<open>\b\<close> holds between two neighbours (the end of the string counting as a
  non-word neighbour) exactly when one is a word character and the other is not.
\<close>

fun is_word_opt :: "unicode \<Rightarrow> nat option \<Rightarrow> bool" where
  "is_word_opt U None = False"
| "is_word_opt U (Some c) = is_word_char U c"

definition word_boundary :: "unicode \<Rightarrow> nat option \<Rightarrow> nat option \<Rightarrow> bool" where
  "word_boundary U l r = (is_word_opt U l \<noteq> is_word_opt U r)"

fun last_opt :: "ustring \<Rightarrow> nat option" where
  "last_opt [] = None"
| "last_opt (c # cs) = (if cs = [] then Some c else last_opt cs)"

fun head_opt :: "ustring \<Rightarrow> nat option" where
  "head_opt [] = None"
| "head_opt (c # cs) = Some c"

text \<open>
  The pattern matches with \<open>pre\<close> before it and \<open>post\<close> after it when both
  boundaries hold there.
\<close>

definition match_at :: "unicode \<Rightarrow> ustring \<Rightarrow> ustring \<Rightarrow> ustring \<Rightarrow> bool" where
  "match_at U pre pat post =
     (word_boundary U (last_opt pre) (head_opt (pat @ post)) \<and>
      word_boundary U (last_opt (pre @ pat)) (head_opt post))"

text \<open>
  The search tries every position from left to right; \<open>pre\<close> is the text already
  passed.
\<close>

fun re_search_scan :: "unicode \<Rightarrow> ustring \<Rightarrow> ustring \<Rightarrow> ustring \<Rightarrow> bool" where
  "re_search_scan U pat pre [] = (pat = [] \<and> match_at U pre pat [])"
| "re_search_scan U pat pre (c # cs) =
     ((prefix pat (c # cs) \<and> match_at U pre pat (drop (length pat) (c # cs))) \<or>
      re_search_scan U pat (pre @ [c]) cs)"

definition re_search_word :: "unicode \<Rightarrow> ustring \<Rightarrow> ustring \<Rightarrow> bool" where
  "re_search_word U pat s = re_search_scan U pat [] s"

section \<open>Field scorer and confidence calculator\<close>

text \<open>
  The scores and weights are Python floats. The three scores are 0.3, 0.7 and 1.0 and
  every weight is 0.33, so the weighted sum times 100 is within rounding error of one of
  29.7, 42.9, 52.8, 56.1, 66, 69.3, 75.9, 79.2, 89.1 and 99. Each of these is at least
  0.1 away from every constant it is compared with (40, 70, 95) and from every half,
  where \<^verbatim>\<open>round\<close> changes its result, so the exact rationals below take the
  same branches and round to the same integer as the floats.
\<close>

definition field_score :: "unicode \<Rightarrow> ustring \<Rightarrow> ustring \<Rightarrow> rat" where
  "field_score U field_value description =
     (if field_value = [] \<or> lower U field_value = u ''unknown'' then 3 / 10
      else (let desc = lower U description; fv = lower U field_value
            in if re_search_word U fv desc then 1 else 7 / 10))"

text \<open>\<^verbatim>\<open>round(x)\<close> of Python 3: to the nearest integer, a half to the even one.\<close>

definition py_round :: "rat \<Rightarrow> int" where
  "py_round x =
     (let f = \<lfloor>x\<rfloor>; d = x - of_int f
      in if d < 1 / 2 then f else if 1 / 2 < d then f + 1
         else if even f then f else f + 1)"

definition compute_confidence ::
  "unicode \<Rightarrow> ustring \<Rightarrow> ustring \<Rightarrow> ustring \<Rightarrow> ustring \<Rightarrow> int" where
  "compute_confidence U issue_type severity affected_system description =
     (let w_issue = 33 / 100; w_sev = 33 / 100; w_sys = 33 / 100;
          s_issue = field_score U issue_type description;
          s_sev = field_score U severity description;
          s_sys = field_score U affected_system description;
          conf = (s_issue * w_issue + s_sev * w_sev + s_sys * w_sys) * 100;
          conf = (if issue_type \<noteq> [] \<and> affected_system \<noteq> [] \<and>
                     lower U issue_type = lower U affected_system
                  then min conf 70 else conf);
          conf = (if conf < 40 then 40 else conf);
          conf = (if 95 < conf then 95 else conf)
      in py_round conf)"

text \<open>
  The reference of the specification, from a raw percentage on: the redundancy cap at
  70 when issue type and affected system are non-empty and equal without regard to
  case, the clamp to 40 and 95, and the rounding.
\<close>

definition ci_eq :: "unicode \<Rightarrow> ustring \<Rightarrow> ustring \<Rightarrow> bool" where
  "ci_eq U a b = (lower U a = lower U b)"

definition redundant :: "unicode \<Rightarrow> ustring \<Rightarrow> ustring \<Rightarrow> bool" where
  "redundant U issue_type affected_system =
     (issue_type \<noteq> [] \<and> affected_system \<noteq> [] \<and> ci_eq U issue_type affected_system)"

definition cap_clamp_round :: "unicode \<Rightarrow> rat \<Rightarrow> ustring \<Rightarrow> ustring \<Rightarrow> int" where
  "cap_clamp_round U raw issue_type affected_system =
     (let capped = (if redundant U issue_type affected_system then min raw 70 else raw)
      in py_round (max 40 (min 95 capped)))"

text \<open>The raw percentage as the specification gives it, each weight one third.\<close>

definition raw_third :: "unicode \<Rightarrow> ustring \<Rightarrow> ustring \<Rightarrow> ustring \<Rightarrow> ustring \<Rightarrow> rat" where
  "raw_third U issue_type severity affected_system description =
     (field_score U issue_type description + field_score U severity description +
      field_score U affected_system description) / 3 * 100"

text \<open>The raw percentage with each weight 0.33.\<close>

definition raw_weighted :: "unicode \<Rightarrow> ustring \<Rightarrow> ustring \<Rightarrow> ustring \<Rightarrow> ustring \<Rightarrow> rat" where
  "raw_weighted U issue_type severity affected_system description =
     (field_score U issue_type description + field_score U severity description +
      field_score U affected_system description) * (33 / 100) * 100"

text \<open>
  What the specification means by a value that appears verbatim at whole-word
  boundaries: the text splits around the value with a word boundary on each side.
\<close>

definition occurs_whole_word :: "unicode \<Rightarrow> ustring \<Rightarrow> ustring \<Rightarrow> bool" where
  "occurs_whole_word U v s = (\<exists>pre post. s = pre @ v @ post \<and> match_at U pre v post)"

section \<open>Tickets, the two files and the external capability\<close>

text \<open>
  The values of the JSON objects that the program reads and stores. Of a value that is
  neither a string, an integer, a boolean nor null (a float, an array, an object) the
  program can see only whether Python counts it as true; \<open>JOther\<close> keeps that.
\<close>

datatype jval = JStr ustring | JInt int | JBool bool | JNull | JOther bool

text \<open>Truth of a value as \<^verbatim>\<open>not v\<close> and \<^verbatim>\<open>v and ...\<close> read it.\<close>

fun truthy :: "jval \<Rightarrow> bool" where
  "truthy (JStr s) = (s \<noteq> [])"
| "truthy (JInt n) = (n \<noteq> 0)"
| "truthy (JBool b) = b"
| "truthy JNull = False"
| "truthy (JOther b) = b"

text \<open>
  A ticket is a JSON object with the keys below; \<open>ai_analysis\<close> and
  \<open>human_resolution\<close> are absent until they are set. The status is a free string in
  the code (\<^verbatim>\<open>"open"\<close>, \<^verbatim>\<open>"need review"\<close>, \<^verbatim>\<open>"closed"\<close>). The
  analysis is a Python dict: an association list, which \<open>AList.update\<close> changes
  as an assignment to a key changes a dict.
\<close>

record ticket =
  ticket_no :: ustring
  description :: ustring
  status :: ustring
  ai_analysis :: "(ustring \<times> jval) list option"
  human_resolution :: "ustring option"

record memory_entry =
  entry_ticket_no :: ustring
  resolution :: ustring
  approved_by_human :: bool

text \<open>
  What the program does to the outside: calls of the language model and writes of the
  two files, in order.
\<close>

datatype event = ExtractCall ustring | FixCall ustring | SaveTickets | SaveMemory

text \<open>
  The files \<^verbatim>\<open>tickets.json\<close> and \<^verbatim>\<open>memory.json\<close> (\<open>None\<close> while a
  file does not exist) and the events so far.
\<close>

record world =
  ticket_file :: "ticket list option"
  memory_file :: "memory_entry list option"
  trace :: "event list"

text \<open>
  The exceptions that leave the program: a call of \<^verbatim>\<open>ollama.chat\<close> that raises
  (no call stands in a \<^verbatim>\<open>try\<close>), and \<^verbatim>\<open>.lower()\<close> on a value that is no string.
\<close>

datatype error = OllamaError | AttributeError

text \<open>
  The language model is outside the program. Its answers are parameters: the answer to
  a call is any function of the call's position in the history and of the description.
  To the extraction call of \<^verbatim>\<open>analyze_ticket\<close> the answer is that
  \<^verbatim>\<open>ollama.chat\<close> raised, or that the \<^verbatim>\<open>try\<close> block raised (no JSON object
  in the content), or the JSON object that the block parsed. To the call of
  \<^verbatim>\<open>generate_proposed_fix\<close>, which has no \<^verbatim>\<open>try\<close>, the answer is \<open>None\<close>
  when the function raised, else the stripped content.
\<close>

datatype extraction = Raised | Unparsed | Parsed "(ustring \<times> jval) list"

record capability =
  extraction_reply :: "nat \<Rightarrow> ustring \<Rightarrow> extraction"
  fix_reply :: "nat \<Rightarrow> ustring \<Rightarrow> ustring option"

definition load_tickets :: "world \<Rightarrow> ticket list" where
  "load_tickets w = (case ticket_file w of None \<Rightarrow> [] | Some ts \<Rightarrow> ts)"

definition save_tickets :: "ticket list \<Rightarrow> world \<Rightarrow> world" where
  "save_tickets ts w = w\<lparr>ticket_file := Some ts, trace := trace w @ [SaveTickets]\<rparr>"

definition load_memory :: "world \<Rightarrow> memory_entry list" where
  "load_memory w = (case memory_file w of None \<Rightarrow> [] | Some m \<Rightarrow> m)"

definition save_memory :: "memory_entry list \<Rightarrow> world \<Rightarrow> world" where
  "save_memory m w = w\<lparr>memory_file := Some m, trace := trace w @ [SaveMemory]\<rparr>"

text \<open>\<^verbatim>\<open>d.get(k, default)\<close>.\<close>

definition dict_get :: "('k \<times> 'v) list \<Rightarrow> 'k \<Rightarrow> 'v \<Rightarrow> 'v" where
  "dict_get d k dflt = (case map_of d k of None \<Rightarrow> dflt | Some v \<Rightarrow> v)"

section \<open>Analysis and the automatic pass\<close>

text \<open>
  What \<^verbatim>\<open>compute_confidence\<close> makes of an extracted value. A string is scored.
  A value that is no string and counts as false passes \<^verbatim>\<open>not field_value\<close> in
  \<^verbatim>\<open>field_score\<close> and stops the redundancy test at once, as the empty string
  does. A value that is no string and counts as true reaches \<^verbatim>\<open>.lower()\<close>, which
  raises.
\<close>

fun as_field :: "jval \<Rightarrow> error + ustring" where
  "as_field (JStr s) = Inr s"
| "as_field v = (if truthy v then Inl AttributeError else Inr [])"

text \<open>
  The all-unknown object of the \<^verbatim>\<open>except\<close> branch, and the object that
  \<^verbatim>\<open>analyze_ticket\<close> goes on with after an answer.
\<close>

definition all_unknown :: "(ustring \<times> jval) list" where
  "all_unknown =
     [(u ''issue_type'', JStr (u ''unknown'')), (u ''severity'', JStr (u ''unknown'')),
      (u ''affected_system'', JStr (u ''unknown''))]"

fun extracted_of :: "extraction \<Rightarrow> (ustring \<times> jval) list" where
  "extracted_of (Parsed e) = e"
| "extracted_of x = all_unknown"

definition generate_proposed_fix ::
  "capability \<Rightarrow> ustring \<Rightarrow> event list \<Rightarrow> (error + ustring) \<times> event list" where
  "generate_proposed_fix cap desc tr =
     (case fix_reply cap (length tr) desc of
        None \<Rightarrow> (Inl OllamaError, tr @ [FixCall desc])
      | Some fix \<Rightarrow> (Inr fix, tr @ [FixCall desc]))"

text \<open>
  The confidence that \<^verbatim>\<open>analyze_ticket\<close> computes from an extracted object, or
  the exception of a field that is no string.
\<close>

definition confidence_of ::
  "unicode \<Rightarrow> (ustring \<times> jval) list \<Rightarrow> ustring \<Rightarrow> error + int" where
  "confidence_of U extracted desc =
     (case as_field (dict_get extracted (u ''issue_type'') (JStr [])) of
        Inl e \<Rightarrow> Inl e
      | Inr issue_type \<Rightarrow>
          (case as_field (dict_get extracted (u ''severity'') (JStr [])) of
             Inl e \<Rightarrow> Inl e
           | Inr severity \<Rightarrow>
               (case as_field (dict_get extracted (u ''affected_system'') (JStr [])) of
                  Inl e \<Rightarrow> Inl e
                | Inr affected_system \<Rightarrow>
                    Inr (compute_confidence U issue_type severity affected_system desc))))"

text \<open>
  \<^verbatim>\<open>analyze_ticket\<close>: the result (the analysis, or the exception that leaves the
  function) and the history after it.
\<close>

definition analyze_ticket ::
  "unicode \<Rightarrow> capability \<Rightarrow> ustring \<Rightarrow> event list \<Rightarrow>
     (error + (ustring \<times> jval) list) \<times> event list" where
  "analyze_ticket U cap desc tr =
     (let reply = extraction_reply cap (length tr) desc;
          tr = tr @ [ExtractCall desc]
      in if reply = Raised then (Inl OllamaError, tr)
         else (let extracted = extracted_of reply
               in case confidence_of U extracted desc of
                    Inl e \<Rightarrow> (Inl e, tr)
                  | Inr conf \<Rightarrow>
                      (let extracted = AList.update (u ''confidence'') (JInt conf) extracted
                       in if 85 \<le> conf
                          then (case generate_proposed_fix cap desc tr of
                                  (Inl e, tr) \<Rightarrow> (Inl e, tr)
                                | (Inr fix, tr) \<Rightarrow>
                                    (Inr (AList.update (u ''propose_fix'') (JStr fix)
                                            extracted), tr))
                          else (Inr (AList.update (u ''propose_fix'') (JStr (u ''none''))
                                       extracted), tr))))"

text \<open>
  The body of the loop of \<^verbatim>\<open>auto_process_open_tickets\<close> for a ticket whose
  status is open. \<^verbatim>\<open>analysis["confidence"]\<close> cannot fail: \<open>analyze_ticket\<close>
  has just stored an integer under that key.
\<close>

definition process_ticket ::
  "unicode \<Rightarrow> capability \<Rightarrow> ticket \<Rightarrow> event list \<Rightarrow> (error + ticket) \<times> event list" where
  "process_ticket U cap t tr =
     (case analyze_ticket U cap (description t) tr of
        (Inl e, tr) \<Rightarrow> (Inl e, tr)
      | (Inr analysis, tr) \<Rightarrow>
          (let t = t\<lparr>ai_analysis := Some analysis\<rparr>
           in case map_of analysis (u ''confidence'') of
                Some (JInt c) \<Rightarrow>
                  (if 85 \<le> c then (Inr (t\<lparr>status := u ''closed''\<rparr>), tr)
                   else (Inr (t\<lparr>status := u ''need review''\<rparr>), tr))
              | _ \<Rightarrow> (Inr t, tr)))"

text \<open>
  The loop. An exception ends it: the tickets changed so far are lost with the list, and
  only the history remains.
\<close>

fun process_loop ::
  "unicode \<Rightarrow> capability \<Rightarrow> ticket list \<Rightarrow> event list \<Rightarrow> bool \<Rightarrow>
     (error + ticket list \<times> bool) \<times> event list" where
  "process_loop U cap [] tr changed = (Inr ([], changed), tr)"
| "process_loop U cap (t # ts) tr changed =
     (if status t = u ''open''
      then (case process_ticket U cap t tr of
              (Inl e, tr') \<Rightarrow> (Inl e, tr')
            | (Inr t', tr') \<Rightarrow>
                (case process_loop U cap ts tr' True of
                   (Inl e, tr'') \<Rightarrow> (Inl e, tr'')
                 | (Inr (ts', changed'), tr'') \<Rightarrow> (Inr (t' # ts', changed'), tr'')))
      else (case process_loop U cap ts tr changed of
              (Inl e, tr'') \<Rightarrow> (Inl e, tr'')
            | (Inr (ts', changed'), tr'') \<Rightarrow> (Inr (t # ts', changed'), tr'')))"

text \<open>
  \<^verbatim>\<open>auto_process_open_tickets\<close>: the exception that ended the pass, if any, and
  the world after it. The file is written at the end of a pass that changed a ticket;
  a pass that an exception ends writes nothing.
\<close>

definition auto_process_open_tickets ::
  "unicode \<Rightarrow> capability \<Rightarrow> world \<Rightarrow> error option \<times> world" where
  "auto_process_open_tickets U cap w =
     (let tickets = load_tickets w
      in case process_loop U cap tickets (trace w) False of
           (Inl e, tr') \<Rightarrow> (Some e, w\<lparr>trace := tr'\<rparr>)
         | (Inr (tickets', changed), tr') \<Rightarrow>
             (let w = w\<lparr>trace := tr'\<rparr>
              in (None, if changed then save_tickets tickets' w else w)))"

section \<open>Search filter\<close>

fun filter_loop :: "ticket list \<Rightarrow> ustring \<Rightarrow> ustring \<Rightarrow> ticket list \<Rightarrow> ticket list" where
  "filter_loop [] fstatus fseverity results = results"
| "filter_loop (t # ts) fstatus fseverity results =
     (let ai = (case ai_analysis t of None \<Rightarrow> [] | Some a \<Rightarrow> a)
      in if fstatus \<noteq> u ''none'' \<and> status t \<noteq> fstatus
         then filter_loop ts fstatus fseverity results
         else if fseverity \<noteq> u ''none'' \<and> map_of ai (u ''severity'') \<noteq> Some (JStr fseverity)
         then filter_loop ts fstatus fseverity results
         else filter_loop ts fstatus fseverity (results @ [t]))"

definition filter_tickets :: "ticket list \<Rightarrow> ustring \<Rightarrow> ustring \<Rightarrow> ticket list" where
  "filter_tickets tickets fstatus fseverity = filter_loop tickets fstatus fseverity []"

text \<open>
  The filter of the specification: a ticket is kept when each facet other than
  \<^verbatim>\<open>none\<close> matches; the severity is read from the analysis and a ticket with no
  analysis, or with no severity in it, does not match.
\<close>

definition analysis_get :: "ticket \<Rightarrow> ustring \<Rightarrow> jval option" where
  "analysis_get t k = (case ai_analysis t of None \<Rightarrow> None | Some a \<Rightarrow> map_of a k)"

definition ticket_severity :: "ticket \<Rightarrow> jval option" where
  "ticket_severity t = analysis_get t (u ''severity'')"

definition facets_match :: "ustring \<Rightarrow> ustring \<Rightarrow> ticket \<Rightarrow> bool" where
  "facets_match fstatus fseverity t =
     ((fstatus = u ''none'' \<or> status t = fstatus) \<and>
      (fseverity = u ''none'' \<or> ticket_severity t = Some (JStr fseverity)))"

section \<open>Manual closure\<close>

text \<open>
  The handler of the button \<^verbatim>\<open>Close Ticket Manually\<close>. It reports through
  \<^verbatim>\<open>st.error\<close> and \<^verbatim>\<open>st.success\<close>; the messages are returned in order. The
  fields of the session state that it clears belong to the page and are left out.
\<close>

datatype message = StError ustring | StSuccess ustring

text \<open>The outcome of the loop over the tickets.\<close>

datatype scan = NoMatch | NotInReview | Closed "ticket list"

text \<open>
  The loop: \<open>seen\<close> are the tickets already passed. The first ticket whose number
  matches ends the loop: with an error when it is not in need of review, else closed.
\<close>

definition number_matches :: "unicode \<Rightarrow> ustring \<Rightarrow> ticket \<Rightarrow> bool" where
  "number_matches U ticket_to_close t =
     (upper U (strip U (ticket_no t)) = upper U (strip U ticket_to_close))"

fun close_scan ::
  "unicode \<Rightarrow> ustring \<Rightarrow> ustring \<Rightarrow> ticket list \<Rightarrow> ticket list \<Rightarrow> scan" where
  "close_scan U ticket_to_close resolution_notes seen [] = NoMatch"
| "close_scan U ticket_to_close resolution_notes seen (t # ts) =
     (if number_matches U ticket_to_close t
      then (if status t \<noteq> u ''need review'' then NotInReview
            else Closed (seen @
                   t\<lparr>status := u ''closed'', human_resolution := Some resolution_notes\<rparr> # ts))
      else close_scan U ticket_to_close resolution_notes (seen @ [t]) ts)"

definition close_ticket_manually ::
  "unicode \<Rightarrow> ustring \<Rightarrow> ustring \<Rightarrow> world \<Rightarrow> world \<times> message list" where
  "close_ticket_manually U ticket_to_close resolution_notes w =
     (if strip U ticket_to_close = []
      then (w, [StError (u ''Please enter a ticket number.'')])
      else if strip U resolution_notes = []
      then (w, [StError (u ''Please enter resolution notes.'')])
      else (case close_scan U ticket_to_close resolution_notes [] (load_tickets w) of
              NoMatch \<Rightarrow> (w, [StError (u ''Ticket not found.'')])
            | NotInReview \<Rightarrow>
                (w, [StError (u ''This ticket is not in 'need review' state.''),
                     StError (u ''Ticket not found.'')])
            | Closed tickets \<Rightarrow>
                (let w = save_tickets tickets w;
                     memory = load_memory w;
                     memory = memory @ [\<lparr>entry_ticket_no = ticket_to_close,
                                          resolution = resolution_notes,
                                          approved_by_human = True\<rparr>];
                     w = save_memory memory w
                 in (w, [StSuccess (u ''Ticket '' @ ticket_to_close @
                                     u '' has been manually closed.'')]))))"

text \<open>
  Two numbers that differ only in the case of their letters or in white space around
  them: each is a core with white space before and after it, the cores have no white
  space at their ends, and the cores are the same once in upper case.
\<close>

definition differs_in_case_or_padding :: "unicode \<Rightarrow> ustring \<Rightarrow> ustring \<Rightarrow> bool" where
  "differs_in_case_or_padding U entered stored =
     (\<exists>pre core post pre' core' post'.
        entered = pre @ core @ post \<and> stored = pre' @ core' @ post' \<and>
        list_all (is_space U) pre \<and> list_all (is_space U) post \<and>
        list_all (is_space U) pre' \<and> list_all (is_space U) post' \<and>
        strip U core = core \<and> strip U core' = core' \<and> upper U core = upper U core')"

section \<open>What the statements about the pass speak of\<close>

text \<open>
  The confidence that \<open>analyze_ticket\<close> computes for a description when the
  history is \<open>tr\<close> and the extraction call returns: the model's answer, or the
  all-unknown triple, scored against the description.
\<close>

definition computed_confidence ::
  "unicode \<Rightarrow> capability \<Rightarrow> ustring \<Rightarrow> event list \<Rightarrow> error + int" where
  "computed_confidence U cap desc tr =
     confidence_of U (extracted_of (extraction_reply cap (length tr) desc)) desc"

fun is_extract_call :: "event \<Rightarrow> bool" where
  "is_extract_call (ExtractCall d) = True"
| "is_extract_call e = False"

definition open_tickets :: "ticket list \<Rightarrow> ticket list" where
  "open_tickets ts = filter (\<lambda>t. status t = u ''open'') ts"

section \<open>A small store\<close>

text \<open>
  Three tickets, one in each state, and a language model that reads the first
  description and returns no JSON for any other one. \<open>demo_cap_no_fix\<close> is the same
  model with a fix generator that is down.
\<close>

definition demo_cap :: capability where
  "demo_cap =
     \<lparr>extraction_reply =
        (\<lambda>n d. if d = u ''auth crash: critical''
                then Parsed [(u ''issue_type'', JStr (u ''crash'')),
                             (u ''severity'', JStr (u ''critical'')),
                             (u ''affected_system'', JStr (u ''auth''))]
                else Unparsed),
      fix_reply = (\<lambda>n d. Some (u ''Restart the auth service.''))\<rparr>"

definition demo_cap_no_fix :: capability where
  "demo_cap_no_fix = demo_cap\<lparr>fix_reply := (\<lambda>n d. None)\<rparr>"

definition demo_open :: ticket where
  "demo_open =
     \<lparr>ticket_no = u ''TICKET-0001'', description = u ''auth crash: critical'',
      status = u ''open'', ai_analysis = None, human_resolution = None\<rparr>"

definition demo_review :: ticket where
  "demo_review =
     \<lparr>ticket_no = u ''TICKET-0002'', description = u ''printer is slow'',
      status = u ''need review'',
      ai_analysis = Some [(u ''issue_type'', JStr (u ''unknown'')),
                          (u ''severity'', JStr (u ''unknown'')),
                          (u ''affected_system'', JStr (u ''unknown'')),
                          (u ''confidence'', JInt 40),
                          (u ''propose_fix'', JStr (u ''none''))],
      human_resolution = None\<rparr>"

definition demo_closed :: ticket where
  "demo_closed =
     \<lparr>ticket_no = u ''TICKET-0003'', description = u ''disk full on db server, high'',
      status = u ''closed'',
      ai_analysis = Some [(u ''issue_type'', JStr (u ''disk full'')),
                          (u ''severity'', JStr (u ''high'')),
                          (u ''affected_system'', JStr (u ''db server'')),
                          (u ''confidence'', JInt 95),
                          (u ''propose_fix'', JStr (u ''Free some space.''))],
      human_resolution = None\<rparr>"

definition demo_world :: world where
  "demo_world =
     \<lparr>ticket_file = Some [demo_open, demo_review, demo_closed], memory_file = None,
      trace = []\<rparr>"

section \<open>The tables on ASCII\<close>

lemma python_on_ascii_Rep: "python_on_ascii (Rep_unicode U)"
  using Rep_unicode [of U] by simp

lemma lower_ascii: "ascii s \<Longrightarrow> lower U s = map ascii_lower s"
  using python_on_ascii_Rep [of U] by (simp add: python_on_ascii_def lower_def)

lemma upper_ascii: "ascii s \<Longrightarrow> upper U s = map ascii_upper s"
  using python_on_ascii_Rep [of U] by (simp add: python_on_ascii_def upper_def)

lemma is_space_ascii: "c < 128 \<Longrightarrow> is_space U c = ascii_space c"
  using python_on_ascii_Rep [of U] by (simp add: python_on_ascii_def is_space_def)

lemma is_word_ascii: "c < 128 \<Longrightarrow> is_word_char U c = ascii_word c"
  using python_on_ascii_Rep [of U] by (simp add: python_on_ascii_def is_word_char_def)

text \<open>The rules that evaluate the string functions on ASCII literals.\<close>

lemmas on_ascii = u_def ascii_def lower_ascii upper_ascii is_space_ascii is_word_ascii
  ascii_lower_def ascii_upper_def ascii_space_def ascii_word_def

lemmas scoring = field_score_def re_search_word_def match_at_def word_boundary_def

lemma lower_unknown: "lower U (u ''unknown'') = u ''unknown''"
  by (simp add: on_ascii)

section \<open>Rounding and the word search\<close>

lemma py_round_cases:
  "py_round x = \<lfloor>x\<rfloor> \<or> (py_round x = \<lfloor>x\<rfloor> + 1 \<and> of_int \<lfloor>x\<rfloor> + 1 / 2 \<le> x)"
  by (auto simp: py_round_def Let_def)

lemma py_round_lower: "of_int a \<le> x \<Longrightarrow> a \<le> py_round x"
proof -
  assume "of_int a \<le> x"
  then have "a \<le> \<lfloor>x\<rfloor>" by (simp add: le_floor_iff)
  with py_round_cases [of x] show ?thesis by auto
qed

lemma py_round_upper: "x \<le> of_int b \<Longrightarrow> py_round x \<le> b"
proof -
  assume h: "x \<le> of_int b"
  have f: "\<lfloor>x\<rfloor> \<le> b" using h by (simp add: floor_le_iff)
  show ?thesis
  proof (cases "py_round x = \<lfloor>x\<rfloor>")
    case True
    then show ?thesis using f by simp
  next
    case False
    with py_round_cases [of x] have r: "py_round x = \<lfloor>x\<rfloor> + 1"
      and g: "of_int \<lfloor>x\<rfloor> + 1 / 2 \<le> x" by auto
    from g h have "(of_int \<lfloor>x\<rfloor> :: rat) < of_int b" by linarith
    then have "\<lfloor>x\<rfloor> < b" by simp
    with r show ?thesis by simp
  qed
qed

text \<open>
  The scan finds a match exactly when the text splits around the pattern with both
  boundaries in place.
\<close>

lemma re_search_scan_iff:
  "re_search_scan U pat pre s \<longleftrightarrow> (\<exists>a b. s = a @ pat @ b \<and> match_at U (pre @ a) pat b)"
proof (induction s arbitrary: pre)
  case Nil
  then show ?case by auto
next
  case (Cons c cs)
  show ?case (is "?L = ?R")
  proof
    assume ?L
    then consider (here) "prefix pat (c # cs)" "match_at U pre pat (drop (length pat) (c # cs))"
      | (later) "re_search_scan U pat (pre @ [c]) cs" by auto
    then show ?R
    proof cases
      case here
      from here(1) obtain b where b: "c # cs = pat @ b" by (auto simp: prefix_def)
      then have "drop (length pat) (c # cs) = b" by simp
      with here(2) b show ?thesis by (intro exI [of _ "[]"] exI [of _ b]) simp
    next
      case later
      with Cons.IH [of "pre @ [c]"] obtain a b
        where "cs = a @ pat @ b" "match_at U (pre @ c # a) pat b" by auto
      then show ?thesis by (intro exI [of _ "c # a"] exI [of _ b]) simp
    qed
  next
    assume ?R
    then obtain a b where ab: "c # cs = a @ pat @ b" and m: "match_at U (pre @ a) pat b"
      by blast
    show ?L
    proof (cases a)
      case Nil
      with ab have "prefix pat (c # cs)" "drop (length pat) (c # cs) = b"
        by (auto simp: prefix_def)
      with m Nil show ?thesis by simp
    next
      case (Cons x a')
      with ab have "cs = a' @ pat @ b" "x = c" by auto
      with m Cons Cons.IH [of "pre @ [c]"] have "re_search_scan U pat (pre @ [c]) cs"
        by auto
      then show ?thesis by simp
    qed
  qed
qed

lemma re_search_word_iff: "re_search_word U pat s = occurs_whole_word U pat s"
  by (simp add: re_search_word_def occurs_whole_word_def re_search_scan_iff)

section \<open>The field scorer\<close>

text \<open>
  Claim C4. For every field value and source text, and whatever the Unicode tables of
  the runtime are beyond ASCII, \<open>field_score\<close> is 0.3 when the value is empty or
  equals \<^verbatim>\<open>unknown\<close> without regard to case; otherwise it is 1.0 when the value,
  without regard to case, stands in the text between two word boundaries; and it is 0.7
  in every other case.
\<close>

theorem field_score_cases:
  "field_score U v d =
     (if v = [] \<or> ci_eq U v (u ''unknown'') then 3 / 10
      else if occurs_whole_word U (lower U v) (lower U d) then 1 else 7 / 10)"
  by (simp add: field_score_def ci_eq_def re_search_word_iff lower_unknown Let_def)

text \<open>
  One input for each case: the sentinel in another case, a value between two
  boundaries, a value with no boundary after it, and a value with no boundary before it.
\<close>

theorem field_score_cases_witness:
  "\<forall>U. field_score U (u ''Unknown'') (u ''disk full'') = 3 / 10 \<and>
       field_score U (u ''Crash'') (u ''server crash!'') = 1 \<and>
       field_score U (u ''crash'') (u ''server crashes'') = 7 / 10 \<and>
       field_score U (u ''crash'') (u ''mycrash now'') = 7 / 10"
proof
  fix U
  have a: "ci_eq U (u ''Unknown'') (u ''unknown'')" by (simp add: ci_eq_def on_ascii)
  have b: "\<not> ci_eq U (u ''Crash'') (u ''unknown'')" "\<not> ci_eq U (u ''crash'') (u ''unknown'')"
    by (simp_all add: ci_eq_def on_ascii)
  have c: "occurs_whole_word U (lower U (u ''Crash'')) (lower U (u ''server crash!''))"
    unfolding re_search_word_iff [symmetric] by (simp add: on_ascii scoring)
  have d: "\<not> occurs_whole_word U (lower U (u ''crash'')) (lower U (u ''server crashes''))"
    "\<not> occurs_whole_word U (lower U (u ''crash'')) (lower U (u ''mycrash now''))"
    unfolding re_search_word_iff [symmetric] by (simp_all add: on_ascii scoring)
  have e: "u ''Unknown'' \<noteq> []" "u ''Crash'' \<noteq> []" "u ''crash'' \<noteq> []" by (simp_all add: u_def)
  show "field_score U (u ''Unknown'') (u ''disk full'') = 3 / 10 \<and>
       field_score U (u ''Crash'') (u ''server crash!'') = 1 \<and>
       field_score U (u ''crash'') (u ''server crashes'') = 7 / 10 \<and>
       field_score U (u ''crash'') (u ''mycrash now'') = 7 / 10"
    using field_score_cases [of U "u ''Unknown''" "u ''disk full''"]
      field_score_cases [of U "u ''Crash''" "u ''server crash!''"]
      field_score_cases [of U "u ''crash''" "u ''server crashes''"]
      field_score_cases [of U "u ''crash''" "u ''mycrash now''"] a b c d e
    by simp
qed

section \<open>The confidence calculator\<close>

lemma clamp_steps:
  "(let c = (if (x::rat) < 40 then 40 else x) in if 95 < c then 95 else c) = max 40 (min 95 x)"
  by (simp add: Let_def max_def min_def)

lemma weighted_sum:
  "((x::rat) * (33 / 100) + y * (33 / 100) + z * (33 / 100)) * 100 =
   (x + y + z) * (33 / 100) * 100"
  by (simp add: algebra_simps)

lemma compute_confidence_reference:
  "compute_confidence U i s a d = cap_clamp_round U (raw_weighted U i s a d) i a"
proof -
  let ?raw = "(field_score U i d * (33 / 100) + field_score U s d * (33 / 100) +
               field_score U a d * (33 / 100)) * 100"
  let ?cap = "if i \<noteq> [] \<and> a \<noteq> [] \<and> lower U i = lower U a then min ?raw 70 else ?raw"
  have "compute_confidence U i s a d =
          py_round (let c = (if ?cap < 40 then 40 else ?cap) in if 95 < c then 95 else c)"
    unfolding compute_confidence_def Let_def by (rule refl)
  also have "\<dots> = py_round (max 40 (min 95 ?cap))"
    by (simp only: clamp_steps)
  also have "\<dots> = cap_clamp_round U (raw_weighted U i s a d) i a"
    unfolding cap_clamp_round_def raw_weighted_def redundant_def ci_eq_def Let_def
    by (simp only: weighted_sum)
  finally show ?thesis .
qed

lemma cap_clamp_round_bounds:
  "40 \<le> cap_clamp_round U r i a \<and> cap_clamp_round U r i a \<le> 95"
proof -
  let ?c = "if redundant U i a then min r 70 else r"
  have "of_int 40 \<le> max 40 (min 95 ?c)" "max 40 (min 95 ?c) \<le> of_int 95" by auto
  then show ?thesis
    unfolding cap_clamp_round_def Let_def by (intro conjI py_round_lower py_round_upper)
qed

lemma cap_clamp_round_redundant: "redundant U i a \<Longrightarrow> cap_clamp_round U r i a \<le> 70"
proof -
  assume "redundant U i a"
  then have "max 40 (min 95 (if redundant U i a then min r 70 else r)) \<le> of_int 70" by auto
  then show ?thesis unfolding cap_clamp_round_def Let_def by (rule py_round_upper)
qed

lemma field_score_unknown: "field_score U (u ''unknown'') d = 3 / 10"
  by (simp add: field_score_def lower_unknown)

text \<open>
  Claim C1, as the specification states it, fails: with the scores 1.0, 0.7 and 0.3 the
  code returns 66, and the reference with weights of one third gives 67.
\<close>

theorem compute_confidence_third_counterexample:
  "\<forall>U. compute_confidence U (u ''crash'') (u ''high'') (u ''unknown'') (u ''crash'') = 66 \<and>
       cap_clamp_round U
         (raw_third U (u ''crash'') (u ''high'') (u ''unknown'') (u ''crash''))
         (u ''crash'') (u ''unknown'') = 67"
proof
  fix U
  have f: "field_score U (u ''crash'') (u ''crash'') = 1"
    "field_score U (u ''high'') (u ''crash'') = 7 / 10"
    "field_score U (u ''unknown'') (u ''crash'') = 3 / 10"
    by (simp_all add: on_ascii scoring)
  have r: "\<not> redundant U (u ''crash'') (u ''unknown'')"
    by (simp add: redundant_def ci_eq_def on_ascii)
  have p: "py_round 66 = 66" "py_round (200 / 3) = 67" by code_simp+
  have m: "max 40 (min 95 (66 :: rat)) = 66" "max 40 (min 95 (200 / 3 :: rat)) = 200 / 3"
    by simp_all
  have w: "raw_weighted U (u ''crash'') (u ''high'') (u ''unknown'') (u ''crash'') = 66"
    "raw_third U (u ''crash'') (u ''high'') (u ''unknown'') (u ''crash'') = 200 / 3"
    by (simp_all add: raw_weighted_def raw_third_def f)
  show
    "compute_confidence U (u ''crash'') (u ''high'') (u ''unknown'') (u ''crash'') = 66 \<and>
     cap_clamp_round U
       (raw_third U (u ''crash'') (u ''high'') (u ''unknown'') (u ''crash''))
       (u ''crash'') (u ''unknown'') = 67"
    by (simp only: compute_confidence_reference cap_clamp_round_def Let_def w r if_False m p
        simp_thms)
qed

text \<open>
  Claim C1, amended. For every triple of field strings and every description,
  \<open>compute_confidence\<close> returns the reference value with each weight 0.33: the raw
  percentage \<open>(s_issue + s_sev + s_sys) * 0.33 * 100\<close>, then the redundancy cap, the
  clamp to 40 and 95 and the rounding. An all-unknown triple has the raw percentage
  29.7 and the confidence 40.
\<close>

theorem compute_confidence_weighted:
  "compute_confidence U i s a d = cap_clamp_round U (raw_weighted U i s a d) i a \<and>
   raw_weighted U (u ''unknown'') (u ''unknown'') (u ''unknown'') d = 297 / 10 \<and>
   compute_confidence U (u ''unknown'') (u ''unknown'') (u ''unknown'') d = 40"
proof -
  have raw: "raw_weighted U (u ''unknown'') (u ''unknown'') (u ''unknown'') d = 297 / 10"
    by (simp add: raw_weighted_def field_score_unknown)
  have "cap_clamp_round U (297 / 10) (u ''unknown'') (u ''unknown'') = 40"
    by (simp add: cap_clamp_round_def redundant_def ci_eq_def py_round_def)
  then have "compute_confidence U (u ''unknown'') (u ''unknown'') (u ''unknown'') d = 40"
    by (simp only: compute_confidence_reference raw)
  with raw show ?thesis by (simp only: compute_confidence_reference simp_thms)
qed

theorem compute_confidence_weighted_witness:
  "\<forall>U. compute_confidence U (u ''crash'') (u ''high'') (u ''unknown'') (u ''crash'') = 66 \<and>
       compute_confidence U (u ''unknown'') (u ''unknown'') (u ''unknown'') (u ''crash'') = 40"
proof
  fix U
  have "cap_clamp_round U
          (raw_weighted U (u ''crash'') (u ''high'') (u ''unknown'') (u ''crash''))
          (u ''crash'') (u ''unknown'') = 66"
    by (simp add: cap_clamp_round_def raw_weighted_def redundant_def ci_eq_def py_round_def
        Let_def on_ascii scoring)
  then show "compute_confidence U (u ''crash'') (u ''high'') (u ''unknown'') (u ''crash'') = 66 \<and>
       compute_confidence U (u ''unknown'') (u ''unknown'') (u ''unknown'') (u ''crash'') = 40"
    using compute_confidence_weighted [of U "u ''crash''" "u ''high''" "u ''unknown''"
        "u ''crash''"]
    by simp
qed

text \<open>
  Claim C2. For every triple of field strings and every description,
  \<open>compute_confidence\<close> returns an integer between 40 and 95.
\<close>

theorem compute_confidence_range:
  "40 \<le> compute_confidence U i s a d \<and> compute_confidence U i s a d \<le> 95"
  by (simp only: compute_confidence_reference cap_clamp_round_bounds)

theorem compute_confidence_range_witness:
  "\<forall>U. 40 \<le> compute_confidence U (u ''crash'') (u ''critical'') (u ''auth system'')
              (u ''Server crash on login, critical issue with auth system'') \<and>
       compute_confidence U (u ''crash'') (u ''critical'') (u ''auth system'')
              (u ''Server crash on login, critical issue with auth system'') \<le> 95"
  by (intro allI compute_confidence_range)

text \<open>
  Claim C5. When issue type and affected system are non-empty and equal without regard
  to case, the confidence is at most 70, whatever the severity and the description.
\<close>

theorem compute_confidence_redundant:
  "i \<noteq> [] \<Longrightarrow> a \<noteq> [] \<Longrightarrow> ci_eq U i a \<Longrightarrow> compute_confidence U i s a d \<le> 70"
  by (simp add: compute_confidence_reference cap_clamp_round_redundant redundant_def)

theorem compute_confidence_redundant_witness:
  "\<forall>U. u ''Login'' \<noteq> [] \<and> u ''login'' \<noteq> [] \<and> ci_eq U (u ''Login'') (u ''login'') \<and>
       compute_confidence U (u ''Login'') (u ''critical'') (u ''login'')
         (u ''critical login failure'') \<le> 70"
proof
  fix U
  have c: "ci_eq U (u ''Login'') (u ''login'')" by (simp add: ci_eq_def on_ascii)
  have e: "u ''Login'' \<noteq> []" "u ''login'' \<noteq> []" by (simp_all add: u_def)
  from compute_confidence_redundant [OF e c, of "u ''critical''" "u ''critical login failure''"]
    c e
  show "u ''Login'' \<noteq> [] \<and> u ''login'' \<noteq> [] \<and> ci_eq U (u ''Login'') (u ''login'') \<and>
       compute_confidence U (u ''Login'') (u ''critical'') (u ''login'')
         (u ''critical login failure'') \<le> 70"
    by simp
qed

section \<open>The search filter\<close>

lemma filter_loop_eq:
  "filter_loop ts fs fv acc = acc @ filter (facets_match fs fv) ts"
  by (induction ts arbitrary: acc)
     (auto simp: facets_match_def ticket_severity_def analysis_get_def Let_def
        split: option.splits)

lemma filter_tickets_eq: "filter_tickets ts fs fv = filter (facets_match fs fv) ts"
  by (simp add: filter_tickets_def filter_loop_eq)

text \<open>
  Claim C9. For every list of tickets and every pair of facets, \<open>filter_tickets\<close>
  returns the tickets for which every facet other than \<^verbatim>\<open>none\<close> matches, in
  their original order: a subsequence of the input. With both facets \<^verbatim>\<open>none\<close> it
  returns the input.
\<close>

theorem filter_tickets_facets:
  "filter_tickets ts fs fv = filter (facets_match fs fv) ts \<and>
   subseq (filter_tickets ts fs fv) ts \<and>
   filter_tickets ts (u ''none'') (u ''none'') = ts"
  by (simp add: filter_tickets_eq facets_match_def)

theorem filter_tickets_facets_witness:
  "filter_tickets [demo_open, demo_review, demo_closed] (u ''closed'') (u ''high'') =
     [demo_closed] \<and>
   filter_tickets [demo_open, demo_review, demo_closed] (u ''none'') (u ''unknown'') =
     [demo_review] \<and>
   filter_tickets [demo_open, demo_review, demo_closed] (u ''none'') (u ''none'') =
     [demo_open, demo_review, demo_closed]"
proof -
  have "filter (facets_match (u ''closed'') (u ''high'')) [demo_open, demo_review, demo_closed] =
          [demo_closed]"
    "filter (facets_match (u ''none'') (u ''unknown'')) [demo_open, demo_review, demo_closed] =
          [demo_review]"
    by (simp_all add: facets_match_def ticket_severity_def analysis_get_def demo_open_def
        demo_review_def demo_closed_def u_def)
  then show ?thesis
    using filter_tickets_facets [of "[demo_open, demo_review, demo_closed]" "u ''closed''"
        "u ''high''"]
      filter_tickets_facets [of "[demo_open, demo_review, demo_closed]" "u ''none''"
        "u ''unknown''"]
    by simp
qed

section \<open>The automatic pass\<close>

lemma keys_distinct:
  "u ''propose_fix'' \<noteq> u ''confidence''" "u ''confidence'' \<noteq> u ''propose_fix''"
  by (simp_all add: u_def)

lemma analyze_ticket_trace:
  "analyze_ticket U cap d tr = (r, tr') \<Longrightarrow>
     tr' = tr @ [ExtractCall d] \<or> tr' = tr @ [ExtractCall d, FixCall d]"
  by (auto simp: analyze_ticket_def Let_def generate_proposed_fix_def
      split: if_splits sum.splits option.splits)

lemma analyze_ticket_success:
  "analyze_ticket U cap d tr = (Inr a, tr') \<Longrightarrow>
     \<exists>c. computed_confidence U cap d tr = Inr c \<and>
         map_of a (u ''confidence'') = Some (JInt c) \<and>
         (85 \<le> c \<longrightarrow>
            (\<exists>fix. fix_reply cap (Suc (length tr)) d = Some fix \<and>
               map_of a (u ''propose_fix'') = Some (JStr fix)) \<and>
            tr' = tr @ [ExtractCall d, FixCall d]) \<and>
         (c < 85 \<longrightarrow>
            map_of a (u ''propose_fix'') = Some (JStr (u ''none'')) \<and>
            tr' = tr @ [ExtractCall d])"
  by (auto simp: analyze_ticket_def computed_confidence_def Let_def generate_proposed_fix_def
      update_conv' keys_distinct split: if_splits sum.splits option.splits)

lemma process_ticket_trace:
  "process_ticket U cap t tr = (r, tr') \<Longrightarrow>
     tr' = tr @ [ExtractCall (description t)] \<or>
     tr' = tr @ [ExtractCall (description t), FixCall (description t)]"
proof -
  assume h: "process_ticket U cap t tr = (r, tr')"
  obtain r1 tr1 where a: "analyze_ticket U cap (description t) tr = (r1, tr1)" by fastforce
  with h have "tr' = tr1"
    by (auto simp: process_ticket_def Let_def
        split: sum.splits option.splits jval.splits if_splits)
  with analyze_ticket_trace [OF a] show ?thesis by simp
qed

lemma process_ticket_success:
  "process_ticket U cap t tr = (Inr t', tr') \<Longrightarrow>
     \<exists>a c. analyze_ticket U cap (description t) tr = (Inr a, tr') \<and>
         computed_confidence U cap (description t) tr = Inr c \<and>
         t' = t\<lparr>ai_analysis := Some a,
                status := (if 85 \<le> c then u ''closed'' else u ''need review'')\<rparr>"
proof -
  assume h: "process_ticket U cap t tr = (Inr t', tr')"
  obtain r1 tr1 where a: "analyze_ticket U cap (description t) tr = (r1, tr1)" by fastforce
  with h obtain an where r1: "r1 = Inr an" "tr1 = tr'"
    by (cases r1)
       (auto simp: process_ticket_def Let_def split: option.splits jval.splits if_splits)
  from analyze_ticket_success [OF a [unfolded r1]] obtain c
    where c: "computed_confidence U cap (description t) tr = Inr c"
      "map_of an (u ''confidence'') = Some (JInt c)" by blast
  with h a r1 show ?thesis by (auto simp: process_ticket_def Let_def split: if_splits)
qed

lemma process_ticket_decision:
  "process_ticket U cap t tr = (Inr t', tr') \<Longrightarrow>
     \<exists>c. computed_confidence U cap (description t) tr = Inr c \<and>
         analysis_get t' (u ''confidence'') = Some (JInt c) \<and>
         (85 \<le> c \<longrightarrow>
            status t' = u ''closed'' \<and>
            (\<exists>fix. fix_reply cap (Suc (length tr)) (description t) = Some fix \<and>
               analysis_get t' (u ''propose_fix'') = Some (JStr fix)) \<and>
            tr' = tr @ [ExtractCall (description t), FixCall (description t)]) \<and>
         (c < 85 \<longrightarrow>
            status t' = u ''need review'' \<and>
            analysis_get t' (u ''propose_fix'') = Some (JStr (u ''none'')) \<and>
            tr' = tr @ [ExtractCall (description t)])"
proof -
  assume h: "process_ticket U cap t tr = (Inr t', tr')"
  from process_ticket_success [OF h] obtain a c
    where a: "analyze_ticket U cap (description t) tr = (Inr a, tr')"
      and c: "computed_confidence U cap (description t) tr = Inr c"
      and t': "t' = t\<lparr>ai_analysis := Some a,
                status := (if 85 \<le> c then u ''closed'' else u ''need review'')\<rparr>" by blast
  from analyze_ticket_success [OF a] c t'
  show ?thesis by (auto simp: analysis_get_def)
qed

lemma status_values:
  "u ''closed'' \<noteq> u ''open''" "u ''need review'' \<noteq> u ''open''"
  by (simp_all add: u_def)


lemma process_loop_props:
  "process_loop U cap ts tr ch = (Inr (ts', ch'), tr') \<Longrightarrow>
     list_all2 (\<lambda>t t'. (status t \<noteq> u ''open'' \<longrightarrow> t' = t) \<and> status t' \<noteq> u ''open'') ts ts' \<and>
     ch' = (ch \<or> open_tickets ts \<noteq> []) \<and>
     (\<exists>new. tr' = tr @ new \<and>
        length (filter is_extract_call new) = length (open_tickets ts))"
proof (induction ts arbitrary: tr ch ts' tr' ch')
  case Nil
  then show ?case by (simp add: open_tickets_def)
next
  case (Cons t ts)
  show ?case
  proof (cases "status t = u ''open''")
    case False
    with Cons.prems obtain r1 where r: "process_loop U cap ts tr ch = (Inr (r1, ch'), tr')"
      and e: "ts' = t # r1" by (auto split: sum.splits prod.splits)
    from Cons.IH [OF r] e False show ?thesis by (auto simp: open_tickets_def)
  next
    case True
    with Cons.prems obtain t1 tr1 r1
      where p: "process_ticket U cap t tr = (Inr t1, tr1)"
        and r: "process_loop U cap ts tr1 True = (Inr (r1, ch'), tr')"
        and e: "ts' = t1 # r1" by (auto split: sum.splits prod.splits)
    from process_ticket_success [OF p] have s1: "status t1 \<noteq> u ''open''"
      by (auto simp: status_values split: if_splits)
    from process_ticket_trace [OF p] obtain one
      where one: "tr1 = tr @ one" "length (filter is_extract_call one) = 1" by auto
    from Cons.IH [OF r] obtain new where n: "tr' = tr1 @ new"
      "length (filter is_extract_call new) = length (open_tickets ts)"
      and l: "list_all2 (\<lambda>t t'. (status t \<noteq> u ''open'' \<longrightarrow> t' = t) \<and> status t' \<noteq> u ''open'') ts r1"
      and c: "ch'" by auto
    from one n True have "tr' = tr @ (one @ new)"
      "length (filter is_extract_call (one @ new)) = length (open_tickets (t # ts))"
      by (auto simp: open_tickets_def)
    with l c e s1 True show ?thesis by (auto simp: open_tickets_def)
  qed
qed

lemma process_loop_no_open:
  "open_tickets ts = [] \<Longrightarrow> process_loop U cap ts tr ch = (Inr (ts, ch), tr)"
  by (induction ts arbitrary: tr ch) (auto simp: open_tickets_def split: if_splits)


lemma process_loop_split:
  "process_loop U cap (before @ t # after) tr ch = (Inr (ts', ch'), tr') \<Longrightarrow>
   status t = u ''open'' \<Longrightarrow>
     \<exists>before' ch1 tr1 t' tr2 after'.
        process_loop U cap before tr ch = (Inr (before', ch1), tr1) \<and>
        process_ticket U cap t tr1 = (Inr t', tr2) \<and>
        process_loop U cap after tr2 True = (Inr (after', ch'), tr') \<and>
        ts' = before' @ t' # after' \<and> length before' = length before"
proof (induction before arbitrary: tr ch ts')
  case Nil
  then show ?case by (auto split: sum.splits prod.splits)
next
  case (Cons b bs)
  show ?case
  proof (cases "status b = u ''open''")
    case False
    with Cons.prems(1) obtain r1
      where r: "process_loop U cap (bs @ t # after) tr ch = (Inr (r1, ch'), tr')"
        and e: "ts' = b # r1" by (auto split: sum.splits prod.splits)
    from Cons.IH [OF r Cons.prems(2)] obtain before' ch1 tr1 t' tr2 after'
      where i: "process_loop U cap bs tr ch = (Inr (before', ch1), tr1)"
        "process_ticket U cap t tr1 = (Inr t', tr2)"
        "process_loop U cap after tr2 True = (Inr (after', ch'), tr')"
        "r1 = before' @ t' # after'" "length before' = length bs" by blast
    from i e False show ?thesis
      by (intro exI [of _ "b # before'"] exI [of _ ch1] exI [of _ tr1] exI [of _ t']
          exI [of _ tr2] exI [of _ after']) simp
  next
    case True
    with Cons.prems(1) obtain b1 trb r1
      where p: "process_ticket U cap b tr = (Inr b1, trb)"
        and r: "process_loop U cap (bs @ t # after) trb True = (Inr (r1, ch'), tr')"
        and e: "ts' = b1 # r1" by (auto split: sum.splits prod.splits)
    from Cons.IH [OF r Cons.prems(2)] obtain before' ch1 tr1 t' tr2 after'
      where i: "process_loop U cap bs trb True = (Inr (before', ch1), tr1)"
        "process_ticket U cap t tr1 = (Inr t', tr2)"
        "process_loop U cap after tr2 True = (Inr (after', ch'), tr')"
        "r1 = before' @ t' # after'" "length before' = length bs" by blast
    from i e True p show ?thesis
      by (intro exI [of _ "b1 # before'"] exI [of _ ch1] exI [of _ tr1] exI [of _ t']
          exI [of _ tr2] exI [of _ after']) simp
  qed
qed


text \<open>A pass that returns has run the loop to its end; a pass that raises has stored nothing.\<close>

lemma auto_process_completed:
  "auto_process_open_tickets U cap w = (None, w') \<Longrightarrow>
     \<exists>ts' ch tr'.
        process_loop U cap (load_tickets w) (trace w) False = (Inr (ts', ch), tr') \<and>
        w' = (if ch then save_tickets ts' (w\<lparr>trace := tr'\<rparr>) else w\<lparr>trace := tr'\<rparr>)"
proof -
  assume h: "auto_process_open_tickets U cap w = (None, w')"
  obtain r tr' where l: "process_loop U cap (load_tickets w) (trace w) False = (r, tr')"
    by fastforce
  show ?thesis
  proof (cases r)
    case (Inl e)
    with h l show ?thesis by (simp add: auto_process_open_tickets_def)
  next
    case (Inr p)
    obtain ts' ch where p: "p = (ts', ch)" by fastforce
    with h l Inr have "w' = (if ch then save_tickets ts' (w\<lparr>trace := tr'\<rparr>)
        else w\<lparr>trace := tr'\<rparr>)"
      by (simp add: auto_process_open_tickets_def Let_def)
    with l Inr p show ?thesis by blast
  qed
qed



text \<open>The rules that evaluate a pass over the small store.\<close>

lemmas demo = demo_cap_def demo_cap_no_fix_def demo_open_def demo_review_def demo_closed_def
  demo_world_def

lemmas pass_steps = auto_process_open_tickets_def load_tickets_def save_tickets_def
  process_ticket_def analyze_ticket_def generate_proposed_fix_def computed_confidence_def
  confidence_of_def dict_get_def all_unknown_def compute_confidence_def py_round_def Let_def
  update_conv'

text \<open>
  Claim C3, as the specification states it, fails: when the fix generator raises, a
  ticket whose computed confidence is 95 is not closed. The exception ends the pass,
  nothing is stored, and the ticket stays open.
\<close>

theorem auto_pass_fix_down_counterexample:
  "\<forall>U. status demo_open = u ''open'' \<and>
       computed_confidence U demo_cap_no_fix (description demo_open) [] = Inr 95 \<and>
       auto_process_open_tickets U demo_cap_no_fix demo_world =
         (Some OllamaError,
          demo_world\<lparr>trace := [ExtractCall (description demo_open),
                               FixCall (description demo_open)]\<rparr>) \<and>
       load_tickets (snd (auto_process_open_tickets U demo_cap_no_fix demo_world)) =
         [demo_open, demo_review, demo_closed]"
  by (simp add: pass_steps demo on_ascii scoring)

text \<open>
  Claim C3, amended. Take a pass that runs to its end: no call of the language model
  raises and no extracted field is a true value other than a string. (A pass that an
  exception ends stores nothing.) For every open ticket \<open>t\<close> of the store, with the
  tickets \<open>before\<close> it processed up to the history \<open>tr1\<close>, the ticket stored in
  its place holds the computed confidence. When that confidence is at least 85 the
  stored ticket is closed, its \<^verbatim>\<open>propose_fix\<close> is the answer of the fix
  generator, and the ticket has added an extraction call and a fix call to the
  history. When it is below 85 the stored ticket is in need of review, its
  \<^verbatim>\<open>propose_fix\<close> is \<^verbatim>\<open>none\<close>, and the ticket has added the extraction
  call alone: the fix generator is not called for it. The pass goes on with the tickets
  \<open>after\<close> from that history and writes the file last.
\<close>

theorem auto_pass_policy:
  assumes "auto_process_open_tickets U cap w = (None, w')"
    and "load_tickets w = before @ t # after"
    and "status t = u ''open''"
  shows "\<exists>before' t' after' ch1 tr1 tr2 ch3 tr3 c.
           process_loop U cap before (trace w) False = (Inr (before', ch1), tr1) \<and>
           computed_confidence U cap (description t) tr1 = Inr c \<and>
           process_loop U cap after tr2 True = (Inr (after', ch3), tr3) \<and>
           ticket_file w' = Some (before' @ t' # after') \<and>
           length before' = length before \<and>
           trace w' = tr3 @ [SaveTickets] \<and>
           analysis_get t' (u ''confidence'') = Some (JInt c) \<and>
           (85 \<le> c \<longrightarrow>
              status t' = u ''closed'' \<and>
              (\<exists>fix. fix_reply cap (Suc (length tr1)) (description t) = Some fix \<and>
                 analysis_get t' (u ''propose_fix'') = Some (JStr fix)) \<and>
              tr2 = tr1 @ [ExtractCall (description t), FixCall (description t)]) \<and>
           (c < 85 \<longrightarrow>
              status t' = u ''need review'' \<and>
              analysis_get t' (u ''propose_fix'') = Some (JStr (u ''none'')) \<and>
              tr2 = tr1 @ [ExtractCall (description t)])"
proof -
  from auto_process_completed [OF assms(1)] assms(2) obtain ts' ch tr'
    where l: "process_loop U cap (before @ t # after) (trace w) False = (Inr (ts', ch), tr')"
      and w': "w' = (if ch then save_tickets ts' (w\<lparr>trace := tr'\<rparr>) else w\<lparr>trace := tr'\<rparr>)"
    by auto
  from process_loop_props [OF l] assms(3) have "ch" by (simp add: open_tickets_def)
  with w' have f: "ticket_file w' = Some ts'" "trace w' = tr' @ [SaveTickets]"
    by (simp_all add: save_tickets_def)
  from process_loop_split [OF l assms(3)] obtain before' ch1 tr1 t' tr2 after'
    where s: "process_loop U cap before (trace w) False = (Inr (before', ch1), tr1)"
      "process_ticket U cap t tr1 = (Inr t', tr2)"
      "process_loop U cap after tr2 True = (Inr (after', ch), tr')"
      "ts' = before' @ t' # after'" "length before' = length before" by blast
  from process_ticket_decision [OF s(2)] s f show ?thesis by blast
qed

text \<open>
  A pass over the small store: its open ticket is stored closed, with the fix. The
  store with the second ticket opened again, before a closed one: that ticket is stored
  in need of review, and the history of the pass is its extraction call and the write.
\<close>

theorem auto_pass_policy_witness:
  "\<forall>U. fst (auto_process_open_tickets U demo_cap demo_world) = None \<and>
       load_tickets demo_world = [] @ demo_open # [demo_review, demo_closed] \<and>
       status demo_open = u ''open'' \<and>
       (\<exists>t' rest.
          ticket_file (snd (auto_process_open_tickets U demo_cap demo_world)) =
            Some (t' # rest) \<and>
          status t' = u ''closed'' \<and>
          analysis_get t' (u ''propose_fix'') = Some (JStr (u ''Restart the auth service.''))) \<and>
       (\<exists>t' rest.
          ticket_file (snd (auto_process_open_tickets U demo_cap
             (demo_world\<lparr>ticket_file :=
                Some [demo_review\<lparr>status := u ''open''\<rparr>, demo_closed]\<rparr>))) =
            Some (t' # rest) \<and>
          status t' = u ''need review'' \<and>
          analysis_get t' (u ''propose_fix'') = Some (JStr (u ''none'')) \<and>
          trace (snd (auto_process_open_tickets U demo_cap
             (demo_world\<lparr>ticket_file :=
                Some [demo_review\<lparr>status := u ''open''\<rparr>, demo_closed]\<rparr>))) =
            [ExtractCall (u ''printer is slow''), SaveTickets])"
proof
  fix U
  let ?t2 = "demo_review\<lparr>status := u ''open''\<rparr>"
  let ?w2 = "demo_world\<lparr>ticket_file := Some [?t2, demo_closed]\<rparr>"
  let ?r1 = "auto_process_open_tickets U demo_cap demo_world"
  let ?r2 = "auto_process_open_tickets U demo_cap ?w2"
  have f: "fst ?r1 = None" "fst ?r2 = None"
    by (simp_all add: pass_steps demo on_ascii scoring)
  have l: "load_tickets demo_world = [] @ demo_open # [demo_review, demo_closed]"
    "load_tickets ?w2 = [] @ ?t2 # [demo_closed]"
    by (simp_all add: load_tickets_def demo_world_def)
  have o: "status demo_open = u ''open''" "status ?t2 = u ''open''"
    by (simp_all add: demo_open_def)
  have c: "computed_confidence U demo_cap (description demo_open) [] = Inr 95"
    "computed_confidence U demo_cap (description ?t2) [] = Inr 40"
    by (simp_all add: pass_steps demo on_ascii scoring)
  have d: "description ?t2 = u ''printer is slow''"
    "\<And>n x. fix_reply demo_cap n x = Some (u ''Restart the auth service.'')"
    "trace demo_world = []" "trace ?w2 = []"
    "open_tickets [demo_closed] = []"
    by (simp_all add: demo open_tickets_def u_def)
  have "?r1 = (None, snd ?r1)" using f(1) by (simp add: prod_eq_iff)
  from auto_pass_policy [OF this l(1) o(1)] c(1)
  have a: "\<exists>t' rest. ticket_file (snd ?r1) = Some (t' # rest) \<and> status t' = u ''closed'' \<and>
      analysis_get t' (u ''propose_fix'') = Some (JStr (u ''Restart the auth service.''))"
    by (auto simp: d)
  have "?r2 = (None, snd ?r2)" using f(2) by (simp add: prod_eq_iff)
  from auto_pass_policy [OF this l(2) o(2)] obtain before' t' after' ch1 tr1 tr2 ch3 tr3 c
    where h: "process_loop U demo_cap [] (trace ?w2) False = (Inr (before', ch1), tr1)"
      "computed_confidence U demo_cap (description ?t2) tr1 = Inr c"
      "process_loop U demo_cap [demo_closed] tr2 True = (Inr (after', ch3), tr3)"
      "ticket_file (snd ?r2) = Some (before' @ t' # after')"
      "trace (snd ?r2) = tr3 @ [SaveTickets]"
      "c < 85 \<longrightarrow> status t' = u ''need review'' \<and>
         analysis_get t' (u ''propose_fix'') = Some (JStr (u ''none'')) \<and>
         tr2 = tr1 @ [ExtractCall (description ?t2)]"
    by blast
  from h(1) have e: "before' = []" "tr1 = []" by (simp_all add: d)
  with h(2) c(2) have "c = 40" by simp
  with h(6) e have t: "status t' = u ''need review''"
    "analysis_get t' (u ''propose_fix'') = Some (JStr (u ''none''))"
    "tr2 = [ExtractCall (u ''printer is slow'')]" by (simp_all add: d)
  from h(3) process_loop_no_open [OF d(5), of U demo_cap tr2 True] have "tr3 = tr2" by simp
  with h(4,5) e t
  have b: "\<exists>t' rest. ticket_file (snd ?r2) = Some (t' # rest) \<and>
      status t' = u ''need review'' \<and>
      analysis_get t' (u ''propose_fix'') = Some (JStr (u ''none'')) \<and>
      trace (snd ?r2) = [ExtractCall (u ''printer is slow''), SaveTickets]"
    by simp
  from f l o a b show
    "fst ?r1 = None \<and> load_tickets demo_world = [] @ demo_open # [demo_review, demo_closed] \<and>
     status demo_open = u ''open'' \<and>
     (\<exists>t' rest. ticket_file (snd ?r1) = Some (t' # rest) \<and> status t' = u ''closed'' \<and>
        analysis_get t' (u ''propose_fix'') = Some (JStr (u ''Restart the auth service.''))) \<and>
     (\<exists>t' rest. ticket_file (snd ?r2) = Some (t' # rest) \<and>
        status t' = u ''need review'' \<and>
        analysis_get t' (u ''propose_fix'') = Some (JStr (u ''none'')) \<and>
        trace (snd ?r2) = [ExtractCall (u ''printer is slow''), SaveTickets])"
    by blast
qed




section \<open>White space around a number\<close>

lemma strip_pre: "list_all (is_space U) pre \<Longrightarrow> strip U (pre @ s) = strip U s"
  by (simp add: strip_def list_all_iff)

lemma strip_post: "list_all (is_space U) post \<Longrightarrow> strip U (s @ post) = strip U s"
proof (cases "\<exists>x\<in>set s. \<not> is_space U x")
  case True
  assume p: "list_all (is_space U) post"
  from True have "dropWhile (is_space U) (s @ post) = dropWhile (is_space U) s @ post"
    by auto
  moreover from p have
    "dropWhile (is_space U) (rev post @ rev (dropWhile (is_space U) s)) =
      dropWhile (is_space U) (rev (dropWhile (is_space U) s))"
    by (intro dropWhile_append2) (simp add: list_all_iff)
  ultimately show ?thesis by (simp add: strip_def)
next
  case False
  assume p: "list_all (is_space U) post"
  from False p have "dropWhile (is_space U) (s @ post) = []" "dropWhile (is_space U) s = []"
    by (simp_all add: list_all_iff)
  then show ?thesis by (simp only: strip_def)
qed

lemma strip_padding:
  "list_all (is_space U) pre \<Longrightarrow> list_all (is_space U) post \<Longrightarrow>
     strip U (pre @ s @ post) = strip U s"
  by (simp add: strip_pre strip_post)

lemma differs_number_matches:
  "differs_in_case_or_padding U entered (ticket_no t) \<Longrightarrow> number_matches U entered t"
proof -
  assume "differs_in_case_or_padding U entered (ticket_no t)"
  then obtain pre core post pre' core' post'
    where e: "entered = pre @ core @ post" "ticket_no t = pre' @ core' @ post'"
      and p: "list_all (is_space U) pre" "list_all (is_space U) post"
        "list_all (is_space U) pre'" "list_all (is_space U) post'"
      and c: "strip U core = core" "strip U core' = core'" "upper U core = upper U core'"
    unfolding differs_in_case_or_padding_def by blast
  from e p c have "strip U entered = core" "strip U (ticket_no t) = core'"
    by (simp_all add: strip_padding)
  with c show ?thesis by (simp add: number_matches_def)
qed

section \<open>Manual closure\<close>


lemma close_scan_first_match:
  "\<forall>b\<in>set before. \<not> number_matches U e b \<Longrightarrow> number_matches U e t \<Longrightarrow>
   close_scan U e n seen (before @ t # after) =
     (if status t \<noteq> u ''need review'' then NotInReview
      else Closed (seen @ before @
             t\<lparr>status := u ''closed'', human_resolution := Some n\<rparr> # after))"
  by (induction before arbitrary: seen) auto

lemma close_ticket_manually_success:
  assumes "strip U e \<noteq> []" "strip U n \<noteq> []"
    and "load_tickets w = before @ t # after"
    and "\<forall>b\<in>set before. \<not> number_matches U e b"
    and "number_matches U e t" "status t = u ''need review''"
  shows "close_ticket_manually U e n w =
     (w\<lparr>ticket_file :=
          Some (before @ t\<lparr>status := u ''closed'', human_resolution := Some n\<rparr> # after),
        trace := trace w @ [SaveTickets, SaveMemory],
        memory_file :=
          Some (load_memory w @
                [\<lparr>entry_ticket_no = e, resolution = n, approved_by_human = True\<rparr>])\<rparr>,
      [StSuccess (u ''Ticket '' @ e @ u '' has been manually closed.'')])"
proof -
  from assms have "close_scan U e n [] (load_tickets w) =
      Closed (before @ t\<lparr>status := u ''closed'', human_resolution := Some n\<rparr> # after)"
    by (simp add: close_scan_first_match)
  with assms(1,2) show ?thesis
    by (simp add: close_ticket_manually_def save_tickets_def save_memory_def load_memory_def
        Let_def)
qed

text \<open>The rules that evaluate the comparison of two ASCII numbers.\<close>

lemmas matching = number_matches_def strip_def


text \<open>
  Claim C7, as the specification states it, fails: notes that consist of one space are
  not empty, and the closure of a ticket in need of review is refused with them.
\<close>

theorem manual_closure_blank_notes_counterexample:
  "\<forall>U. u ''TICKET-0002'' \<noteq> [] \<and> u '' '' \<noteq> [] \<and>
       load_tickets demo_world = [demo_open, demo_review, demo_closed] \<and>
       ticket_no demo_review = u ''TICKET-0002'' \<and>
       status demo_review = u ''need review'' \<and>
       close_ticket_manually U (u ''TICKET-0002'') (u '' '') demo_world =
         (demo_world, [StError (u ''Please enter resolution notes.'')])"
proof
  fix U
  have "strip U (u ''TICKET-0002'') \<noteq> []" "strip U (u '' '') = []"
    by (simp_all add: strip_def on_ascii)
  then show "u ''TICKET-0002'' \<noteq> [] \<and> u '' '' \<noteq> [] \<and>
       load_tickets demo_world = [demo_open, demo_review, demo_closed] \<and>
       ticket_no demo_review = u ''TICKET-0002'' \<and>
       status demo_review = u ''need review'' \<and>
       close_ticket_manually U (u ''TICKET-0002'') (u '' '') demo_world =
         (demo_world, [StError (u ''Please enter resolution notes.'')])"
    by (simp add: close_ticket_manually_def load_tickets_def demo_world_def demo_review_def)
       (simp add: u_def)
qed

text \<open>
  Claim C7, amended. When the ticket number and the notes are not blank (not empty once
  the white space around them is stripped) and the target ticket, the first ticket whose
  number matches the entered one, is in need of review, manual closure sets the status
  of that ticket to closed and its \<^verbatim>\<open>human_resolution\<close> to the notes, leaves
  the other tickets as they were, appends exactly one entry with the entered number,
  the notes and \<^verbatim>\<open>approved_by_human\<close> true to the resolution memory, and reports
  success.
\<close>

theorem manual_closure_closes:
  assumes "strip U e \<noteq> []" "strip U n \<noteq> []"
    and "load_tickets w = before @ t # after"
    and "\<forall>b\<in>set before. \<not> number_matches U e b"
    and "number_matches U e t" "status t = u ''need review''"
  shows "case close_ticket_manually U e n w of
           (w', msgs) \<Rightarrow>
             load_tickets w' =
               before @ t\<lparr>status := u ''closed'', human_resolution := Some n\<rparr> # after \<and>
             load_memory w' =
               load_memory w @
               [\<lparr>entry_ticket_no = e, resolution = n, approved_by_human = True\<rparr>] \<and>
             msgs = [StSuccess (u ''Ticket '' @ e @ u '' has been manually closed.'')]"
  by (simp add: close_ticket_manually_success [OF assms] load_tickets_def load_memory_def)

text \<open>The example of the specification: ticket 2 and the notes \<^verbatim>\<open>restarted service\<close>.\<close>

theorem manual_closure_closes_witness:
  "\<forall>U. strip U (u ''TICKET-0002'') \<noteq> [] \<and> strip U (u ''restarted service'') \<noteq> [] \<and>
       load_tickets demo_world = [demo_open] @ demo_review # [demo_closed] \<and>
       \<not> number_matches U (u ''TICKET-0002'') demo_open \<and>
       number_matches U (u ''TICKET-0002'') demo_review \<and>
       status demo_review = u ''need review'' \<and>
       load_tickets (fst (close_ticket_manually U (u ''TICKET-0002'')
                            (u ''restarted service'') demo_world)) =
         [demo_open,
          demo_review\<lparr>status := u ''closed'',
                      human_resolution := Some (u ''restarted service'')\<rparr>,
          demo_closed] \<and>
       load_memory (fst (close_ticket_manually U (u ''TICKET-0002'')
                           (u ''restarted service'') demo_world)) =
         [\<lparr>entry_ticket_no = u ''TICKET-0002'', resolution = u ''restarted service'',
           approved_by_human = True\<rparr>]"
proof
  fix U
  have h: "strip U (u ''TICKET-0002'') \<noteq> []" "strip U (u ''restarted service'') \<noteq> []"
    "\<not> number_matches U (u ''TICKET-0002'') demo_open"
    "number_matches U (u ''TICKET-0002'') demo_review"
    by (simp_all add: matching demo on_ascii)
  have l: "load_tickets demo_world = [demo_open] @ demo_review # [demo_closed]"
    by (simp add: load_tickets_def demo_world_def)
  have m: "load_memory demo_world = []" by (simp add: load_memory_def demo_world_def)
  have s: "status demo_review = u ''need review''" by (simp add: demo_review_def)
  have b: "\<forall>b\<in>set [demo_open]. \<not> number_matches U (u ''TICKET-0002'') b" using h by simp
  from manual_closure_closes [OF h(1,2) l b h(4) s] h l s m
  show "strip U (u ''TICKET-0002'') \<noteq> [] \<and> strip U (u ''restarted service'') \<noteq> [] \<and>
       load_tickets demo_world = [demo_open] @ demo_review # [demo_closed] \<and>
       \<not> number_matches U (u ''TICKET-0002'') demo_open \<and>
       number_matches U (u ''TICKET-0002'') demo_review \<and>
       status demo_review = u ''need review'' \<and>
       load_tickets (fst (close_ticket_manually U (u ''TICKET-0002'')
                            (u ''restarted service'') demo_world)) =
         [demo_open,
          demo_review\<lparr>status := u ''closed'',
                      human_resolution := Some (u ''restarted service'')\<rparr>,
          demo_closed] \<and>
       load_memory (fst (close_ticket_manually U (u ''TICKET-0002'')
                           (u ''restarted service'') demo_world)) =
         [\<lparr>entry_ticket_no = u ''TICKET-0002'', resolution = u ''restarted service'',
           approved_by_human = True\<rparr>]"
    by (simp add: case_prod_beta)
qed



text \<open>
  Claim C10, as it is stated, fails: the entered number \<^verbatim>\<open>ticket-0003\<close> differs
  from the number of the stored ticket 3 in the case of its letters only, and that
  ticket, which is closed already, is not closed by the handler: the world stays as it
  was and nothing is appended to the resolution memory.
\<close>

theorem manual_closure_closed_ticket_counterexample:
  "\<forall>U. load_tickets demo_world = [demo_open, demo_review, demo_closed] \<and>
       differs_in_case_or_padding U (u ''ticket-0003'') (ticket_no demo_closed) \<and>
       close_ticket_manually U (u ''ticket-0003'') (u ''done'') demo_world =
         (demo_world, [StError (u ''This ticket is not in 'need review' state.''),
                       StError (u ''Ticket not found.'')])"
proof
  fix U
  have c: "strip U (u ''ticket-0003'') = u ''ticket-0003''"
    "strip U (u ''TICKET-0003'') = u ''TICKET-0003''"
    "upper U (u ''ticket-0003'') = upper U (u ''TICKET-0003'')"
    by (simp_all add: strip_def on_ascii)
  have tn: "ticket_no demo_closed = u ''TICKET-0003''" by (simp add: demo_closed_def)
  have d: "differs_in_case_or_padding U (u ''ticket-0003'') (ticket_no demo_closed)"
    unfolding differs_in_case_or_padding_def tn using c
    by (intro exI [of _ "[]"] exI [of _ "u ''ticket-0003''"] exI [of _ "u ''TICKET-0003''"])
       simp
  have l: "load_tickets demo_world = [demo_open, demo_review, demo_closed]"
    by (simp add: load_tickets_def demo_world_def)
  have s: "strip U (u ''ticket-0003'') \<noteq> []" "strip U (u ''done'') \<noteq> []"
    by (simp_all add: strip_def on_ascii)
  have m: "\<not> number_matches U (u ''ticket-0003'') demo_open"
    "\<not> number_matches U (u ''ticket-0003'') demo_review"
    "number_matches U (u ''ticket-0003'') demo_closed"
    by (simp_all add: matching demo on_ascii)
  have st: "status demo_closed \<noteq> u ''need review''" by (simp add: demo_closed_def u_def)
  from m st have "close_scan U (u ''ticket-0003'') (u ''done'') [] (load_tickets demo_world) =
      NotInReview" by (simp add: l)
  with s d l show "load_tickets demo_world = [demo_open, demo_review, demo_closed] \<and>
       differs_in_case_or_padding U (u ''ticket-0003'') (ticket_no demo_closed) \<and>
       close_ticket_manually U (u ''ticket-0003'') (u ''done'') demo_world =
         (demo_world, [StError (u ''This ticket is not in 'need review' state.''),
                       StError (u ''Ticket not found.'')])"
    by (simp add: close_ticket_manually_def)
qed

text \<open>
  Claim C10, amended. The target of a manual closure is found by comparing the numbers
  in upper case with the white space around them stripped. So an entered number that
  differs from the number of a stored ticket only in the case of its letters or in
  white space around it matches that ticket. When that ticket is in need of review and
  no ticket before it matches, and the entered number and the notes are not blank, it
  is closed, and the one entry appended to the resolution memory carries the entered
  string as it was typed, not the stored number.
\<close>

theorem manual_closure_lenient_match:
  assumes "differs_in_case_or_padding U e (ticket_no t)"
    and "strip U e \<noteq> []" "strip U n \<noteq> []"
    and "load_tickets w = before @ t # after"
    and "\<forall>b\<in>set before. \<not> number_matches U e b"
    and "status t = u ''need review''"
  shows "number_matches U e t \<and>
         load_tickets (fst (close_ticket_manually U e n w)) =
           before @ t\<lparr>status := u ''closed'', human_resolution := Some n\<rparr> # after \<and>
         length (load_memory (fst (close_ticket_manually U e n w))) =
           Suc (length (load_memory w)) \<and>
         entry_ticket_no (last (load_memory (fst (close_ticket_manually U e n w)))) = e"
proof -
  from assms(1) have m: "number_matches U e t" by (rule differs_number_matches)
  from close_ticket_manually_success [OF assms(2,3,4,5) m assms(6)] m
  show ?thesis by (simp add: load_tickets_def load_memory_def)
qed

theorem manual_closure_lenient_match_witness:
  "\<forall>U. differs_in_case_or_padding U (u '' ticket-0002 '') (ticket_no demo_review) \<and>
       u '' ticket-0002 '' \<noteq> ticket_no demo_review \<and>
       number_matches U (u '' ticket-0002 '') demo_review \<and>
       load_tickets (fst (close_ticket_manually U (u '' ticket-0002 '')
                            (u ''restarted service'') demo_world)) =
         [demo_open,
          demo_review\<lparr>status := u ''closed'',
                      human_resolution := Some (u ''restarted service'')\<rparr>,
          demo_closed] \<and>
       entry_ticket_no (last (load_memory (fst (close_ticket_manually U (u '' ticket-0002 '')
                                                  (u ''restarted service'') demo_world)))) =
         u '' ticket-0002 ''"
proof
  fix U
  have c: "list_all (is_space U) (u '' '')"
    "strip U (u ''ticket-0002'') = u ''ticket-0002''"
    "strip U (u ''TICKET-0002'') = u ''TICKET-0002''"
    "upper U (u ''ticket-0002'') = upper U (u ''TICKET-0002'')"
    by (simp_all add: strip_def on_ascii)
  have tn: "ticket_no demo_review = u ''TICKET-0002''" by (simp add: demo_review_def)
  have sp: "u '' ticket-0002 '' = u '' '' @ u ''ticket-0002'' @ u '' ''" by (simp add: u_def)
  have d: "differs_in_case_or_padding U (u '' ticket-0002 '') (ticket_no demo_review)"
    unfolding differs_in_case_or_padding_def tn sp using c
    by (intro exI [of _ "u '' ''"] exI [of _ "u ''ticket-0002''"] exI [of _ "[]"]
        exI [of _ "u ''TICKET-0002''"]) simp
  have h: "strip U (u '' ticket-0002 '') \<noteq> []" "strip U (u ''restarted service'') \<noteq> []"
    "\<not> number_matches U (u '' ticket-0002 '') demo_open"
    by (simp_all add: matching demo on_ascii)
  have ne: "u '' ticket-0002 '' \<noteq> ticket_no demo_review" by (simp add: tn u_def)
  have l: "load_tickets demo_world = [demo_open] @ demo_review # [demo_closed]"
    by (simp add: load_tickets_def demo_world_def)
  have s: "status demo_review = u ''need review''" by (simp add: demo_review_def)
  have b: "\<forall>b\<in>set [demo_open]. \<not> number_matches U (u '' ticket-0002 '') b" using h by simp
  from manual_closure_lenient_match [OF d h(1,2) l b s] d ne
  show "differs_in_case_or_padding U (u '' ticket-0002 '') (ticket_no demo_review) \<and>
       u '' ticket-0002 '' \<noteq> ticket_no demo_review \<and>
       number_matches U (u '' ticket-0002 '') demo_review \<and>
       load_tickets (fst (close_ticket_manually U (u '' ticket-0002 '')
                            (u ''restarted service'') demo_world)) =
         [demo_open,
          demo_review\<lparr>status := u ''closed'',
                      human_resolution := Some (u ''restarted service'')\<rparr>,
          demo_closed] \<and>
       entry_ticket_no (last (load_memory (fst (close_ticket_manually U (u '' ticket-0002 '')
                                                  (u ''restarted service'') demo_world)))) =
         u '' ticket-0002 ''"
    by simp
qed

end
